theory Spec2Isabelle
  imports Main "HOL-Library.Word"
begin

unbundle bit_operations_syntax

section \<open>Strings\<close>

text \<open>
  A JavaScript string is modelled as a \<^typ>\<open>string\<close>, one \<^typ>\<open>char\<close> per code unit.
  Accelerator syntax, schema ids and key names are ASCII text; there the number of code
  units (\<^verbatim>\<open>s.length\<close>) is also the number of bytes the host library sees.
\<close>

text \<open>\<^verbatim>\<open>Array.prototype.join\<close>: the elements separated by \<open>sep\<close>.\<close>

fun join :: "string list \<Rightarrow> string \<Rightarrow> string" where
  "join [] sep = []"
| "join [x] sep = x"
| "join (x # y # ys) sep = x @ sep @ join (y # ys) sep"

text \<open>\<^verbatim>\<open>s.replace(/\./g, '/')\<close>: every dot becomes a slash.\<close>

definition replace_dots :: "string \<Rightarrow> string" where
  "replace_dots s = map (\<lambda>c. if c = CHR ''.'' then CHR ''/'' else c) s"

text \<open>Lower-case hexadecimal digits, as \<^verbatim>\<open>printf("%x")\<close> and JSON's \<^verbatim>\<open>\uXXXX\<close> print them.\<close>

definition hex_digit :: "nat \<Rightarrow> char" where
  "hex_digit d = ''0123456789abcdef'' ! (d mod 16)"

fun hex :: "nat \<Rightarrow> string" where
  "hex n = (if n < 16 then [hex_digit n] else hex (n div 16) @ [hex_digit n])"

declare hex.simps [simp del]

definition hex4 :: "nat \<Rightarrow> string" where
  "hex4 n = [hex_digit (n div 4096), hex_digit (n div 256), hex_digit (n div 16), hex_digit n]"

subsection \<open>GLib.markup_escape_text\<close>

text \<open>
  Modelled from the spec: \<^verbatim>\<open>GLib.markup_escape_text(text, length)\<close> is a function of the
  host's GLib library, which the repository calls and does not contain. The spec (4.1,
  render) says it escapes the markup-significant characters \<^verbatim>\<open><\<close>, \<^verbatim>\<open>>\<close>, \<^verbatim>\<open>&\<close>,
  \<^verbatim>\<open>"\<close> and \<^verbatim>\<open>'\<close>; GLib writes them as the five predefined entities. GLib also writes
  the control characters other than tab, newline and carriage return as hexadecimal
  character references, and copies every other character. Only the first \<open>len\<close>
  characters of \<open>text\<close> are processed.
\<close>

definition is_control :: "char \<Rightarrow> bool" where
  "is_control c =
     (let n = (of_char c :: nat)
      in (1 \<le> n \<and> n \<le> 8) \<or> (11 \<le> n \<and> n \<le> 12) \<or> (14 \<le> n \<and> n \<le> 31) \<or> n = 127)"

definition escape_char :: "char \<Rightarrow> string" where
  "escape_char c =
     (if c = CHR ''&'' then ''&amp;''
      else if c = CHR ''<'' then ''&lt;''
      else if c = CHR ''>'' then ''&gt;''
      else if c = CHR 0x27 then ''&apos;''
      else if c = CHR 0x22 then ''&quot;''
      else if is_control c then ''&#x'' @ hex (of_char c) @ '';''
      else [c])"

definition markup_escape_text :: "string \<Rightarrow> nat \<Rightarrow> string" where
  "markup_escape_text text len = concat (map escape_char (take len text))"

subsection \<open>JSON.stringify on an array of strings\<close>

text \<open>
  Modelled from the spec: \<^verbatim>\<open>JSON.stringify\<close> is a built-in of the JavaScript engine. The
  spec (4.1, render) says the escaped sequences are serialized as a JSON-style
  array-of-strings literal, \<^verbatim>\<open>["<seq1>","<seq2>",...]\<close>. Each string is quoted as
  ECMAScript's QuoteJSONString does: a backslash before \<^verbatim>\<open>"\<close> and \<^verbatim>\<open>\\<close>, the short
  escapes for backspace, tab, newline, form feed and carriage return, \<^verbatim>\<open>\u00XX\<close> for
  the other characters below 0x20, and every other character as it is.
\<close>

definition quote_json_char :: "char \<Rightarrow> string" where
  "quote_json_char c =
     (if c = CHR 0x08 then [CHR 0x5C, CHR ''b'']
      else if c = CHR 0x09 then [CHR 0x5C, CHR ''t'']
      else if c = CHR 0x0A then [CHR 0x5C, CHR ''n'']
      else if c = CHR 0x0C then [CHR 0x5C, CHR ''f'']
      else if c = CHR 0x0D then [CHR 0x5C, CHR ''r'']
      else if c = CHR 0x22 then [CHR 0x5C, CHR 0x22]
      else if c = CHR 0x5C then [CHR 0x5C, CHR 0x5C]
      else if (of_char c :: nat) < 32 then [CHR 0x5C, CHR ''u''] @ hex4 (of_char c)
      else [c])"

definition QuoteJSONString :: "string \<Rightarrow> string" where
  "QuoteJSONString s = [CHR 0x22] @ concat (map quote_json_char s) @ [CHR 0x22]"

definition JSON_stringify :: "string list \<Rightarrow> string" where
  "JSON_stringify a = ''['' @ join (map QuoteJSONString a) '','' @ '']''"

section \<open>The registry\<close>

text \<open>
  A binding is the object \<^verbatim>\<open>{name, sequences, handler}\<close> that \<^verbatim>\<open>add\<close> pushes; the handler
  is an opaque callback of type \<open>'h\<close>. A \<^verbatim>\<open>Keybinder\<close> holds the three fields its
  constructor sets.
\<close>

record 'h binding =
  name :: string
  sequences :: "string list"
  handler :: 'h

record 'h keybinder =
  id' :: string
  dir :: string
  bindings :: "'h binding list"

text \<open>\<^verbatim>\<open>render({name, sequences})\<close>, lines 49 to 53.\<close>

definition render :: "'h binding \<Rightarrow> string" where
  \<open>render b =
     (let value = map (\<lambda>s. markup_escape_text s (length s)) (sequences b);
          markup = ''<default>'' @ JSON_stringify value @ ''</default>''
      in ''<key type="as" name="'' @ name b @ ''"><summary/>'' @ markup @ ''</key>'')\<close>

section \<open>The host\<close>

text \<open>
  Everything outside the class is the host: the file system (Gio), the process spawner
  (GLib), the schema loader (Gio) and the shell's window manager (\<^verbatim>\<open>Main.wm\<close>). The host
  is a parameter of the model: a record of functions over a host state \<open>'w\<close>, each of
  which returns a value or throws. Host objects (schema sources, schemas, settings
  objects) are opaque values of type \<open>'o\<close>; a nullable one is an \<open>'o option\<close>.
\<close>

datatype js_error = JsError string

text \<open>What \<^verbatim>\<open>GLib.spawn_sync\<close> returns when the child process ran.\<close>

record spawn_result =
  ok :: bool
  standard_output :: string
  standard_error :: string
  exit_status :: int

record ('w, 'o, 'h) host =
  GLib_get_tmp_dir :: "'w \<Rightarrow> string"
  Gio_replace_contents :: "string \<Rightarrow> string \<Rightarrow> string \<Rightarrow> 'w \<Rightarrow> (js_error + unit) \<times> 'w"
  GLib_spawn_sync :: "string \<Rightarrow> string list \<Rightarrow> 'w \<Rightarrow> (js_error + spawn_result) \<times> 'w"
  Gio_get_default :: "'w \<Rightarrow> (js_error + 'o option) \<times> 'w"
  Gio_new_from_directory :: "string \<Rightarrow> 'o option \<Rightarrow> bool \<Rightarrow> 'w \<Rightarrow> (js_error + 'o) \<times> 'w"
  Gio_lookup :: "'o \<Rightarrow> string \<Rightarrow> bool \<Rightarrow> 'w \<Rightarrow> (js_error + 'o option) \<times> 'w"
  Gio_new_Settings :: "'o option \<Rightarrow> 'w \<Rightarrow> (js_error + 'o) \<times> 'w"
  wm_addKeybinding :: "string \<Rightarrow> 'o \<Rightarrow> int \<Rightarrow> int \<Rightarrow> 'h \<Rightarrow> 'w \<Rightarrow> (js_error + int) \<times> 'w"
  wm_removeKeybinding :: "string \<Rightarrow> 'w \<Rightarrow> (js_error + unit) \<times> 'w"
  NORMAL :: int
  MESSAGE_TRAY :: int

text \<open>
  The calls the class makes to the host, with the arguments it passes, in the order it
  makes them. \<^verbatim>\<open>replace_contents\<close> is logged with the directory, the child's name and the
  content (the other arguments are the constants \<^verbatim>\<open>null, false, 0, null\<close>);
  \<^verbatim>\<open>spawn_sync\<close> with the working directory and the argument vector (the others are
  \<^verbatim>\<open>null, SEARCH_PATH, null\<close>).
\<close>

datatype ('o, 'h) call =
    Replace_contents string string string
  | Spawn_sync string "string list"
  | Get_default
  | New_from_directory string "'o option" bool
  | Lookup 'o string bool
  | New_Settings "'o option"
  | AddKeybinding string 'o int int 'h
  | RemoveKeybinding string

text \<open>
  The state a method runs in: the object \<^verbatim>\<open>this\<close>, the host's state and the log of host
  calls made so far. A method returns a value or the error it threw, and the new state.
\<close>

record ('w, 'o, 'h) state =
  this :: "'h keybinder"
  world :: 'w
  calls :: "('o, 'h) call list"

type_synonym ('a, 'w, 'o, 'h) proc =
  "('w, 'o, 'h) state \<Rightarrow> (js_error + 'a) \<times> ('w, 'o, 'h) state"

definition returns :: "'a \<Rightarrow> ('a, 'w, 'o, 'h) proc" where
  "returns x s = (Inr x, s)"

text \<open>Sequencing: an error thrown by the first part ends the method.\<close>

definition then_do ::
  "('a, 'w, 'o, 'h) proc \<Rightarrow> ('a \<Rightarrow> ('b, 'w, 'o, 'h) proc) \<Rightarrow> ('b, 'w, 'o, 'h) proc" where
  "then_do m f s = (case m s of (Inl e, s') \<Rightarrow> (Inl e, s') | (Inr x, s') \<Rightarrow> f x s')"

text \<open>A host call is logged, whether it returns or throws; it cannot touch \<^verbatim>\<open>this\<close>.\<close>

definition host_call ::
  "('o, 'h) call \<Rightarrow> ('w \<Rightarrow> (js_error + 'a) \<times> 'w) \<Rightarrow> ('a, 'w, 'o, 'h) proc" where
  "host_call c f s =
     (case f (world s) of (r, w') \<Rightarrow> (r, s\<lparr>world := w', calls := calls s @ [c]\<rparr>))"

text \<open>\<^verbatim>\<open>for (let x of xs) body\<close>: an error thrown by one iteration ends the loop.\<close>

primrec for_of :: "'a list \<Rightarrow> ('a \<Rightarrow> ('b, 'w, 'o, 'h) proc) \<Rightarrow> (unit, 'w, 'o, 'h) proc" where
  "for_of [] body = returns ()"
| "for_of (x # xs) body = then_do (body x) (\<lambda>_. for_of xs body)"

text \<open>
  JavaScript's \<^verbatim>\<open>a | b\<close>: both operands are converted to 32-bit integers, the result is
  the signed value of their bitwise or.
\<close>

definition js_bitor :: "int \<Rightarrow> int \<Rightarrow> int" where
  "js_bitor a b = sint ((word_of_int a :: 32 word) OR word_of_int b)"

section \<open>The methods of Keybinder\<close>

text \<open>
  \<^verbatim>\<open>constructor(id, directory=GLib.get_tmp_dir())\<close>, lines 23 to 27: the default is taken
  when the second argument is left out.
\<close>

definition constructor :: "('w, 'o, 'h) host \<Rightarrow> string \<Rightarrow> string option \<Rightarrow> 'w \<Rightarrow> 'h keybinder" where
  "constructor h i directory w =
     \<lparr>id' = ''org.gnome.shell.extensions.'' @ i,
      dir = (case directory of None \<Rightarrow> GLib_get_tmp_dir h w | Some d \<Rightarrow> d),
      bindings = []\<rparr>"

text \<open>
  \<^verbatim>\<open>add(name, sequences, handler)\<close>, lines 36 to 39. The second argument is a string or
  an array of strings.
\<close>

datatype sequences_arg = Str string | Arr "string list"

definition add :: "string \<Rightarrow> sequences_arg \<Rightarrow> 'h \<Rightarrow> (unit, 'w, 'o, 'h) proc" where
  "add n seqs cb s =
     (let seqs' = (case seqs of Arr a \<Rightarrow> a | Str x \<Rightarrow> [x])
      in (Inr (),
          s\<lparr>this := (this s)\<lparr>bindings :=
               bindings (this s) @ [\<lparr>name = n, sequences = seqs', handler = cb\<rparr>]\<rparr>\<rparr>))"

text \<open>\<^verbatim>\<open>build()\<close>, lines 60 to 67.\<close>

definition build :: "('w, 'o, 'h) host \<Rightarrow> (unit, 'w, 'o, 'h) proc" where
  \<open>build h s =
     (let path = replace_dots (id' (this s));
          entries = join (map render (bindings (this s))) '''';
          schema = ''<schema id="'' @ id' (this s) @ ''" path="/'' @ path @ ''/">'' @ entries
                     @ ''</schema>'';
          content = ''<schemalist>'' @ schema @ ''</schemalist>'';
          child = id' (this s) @ ''.gschema.xml''
      in host_call (Replace_contents (dir (this s)) child content)
           (Gio_replace_contents h (dir (this s)) child content) s)\<close>

text \<open>\<^verbatim>\<open>compile()\<close>, lines 74 to 77: what \<^verbatim>\<open>spawn_sync\<close> returns is dropped.\<close>

definition compile :: "('w, 'o, 'h) host \<Rightarrow> (unit, 'w, 'o, 'h) proc" where
  "compile h s =
     (let exec = [''glib-compile-schemas'', dir (this s)]
      in then_do (host_call (Spawn_sync (dir (this s)) exec) (GLib_spawn_sync h (dir (this s)) exec))
           (\<lambda>_. returns ()) s)"

text \<open>\<^verbatim>\<open>load()\<close>, lines 85 to 89.\<close>

definition load :: "('w, 'o, 'h) host \<Rightarrow> ('o, 'w, 'o, 'h) proc" where
  "load h =
     then_do (host_call Get_default (Gio_get_default h)) (\<lambda>fb s1.
     then_do (host_call (New_from_directory (dir (this s1)) fb False)
                (Gio_new_from_directory h (dir (this s1)) fb False)) (\<lambda>src s2.
     then_do (host_call (Lookup src (id' (this s2)) True)
                (Gio_lookup h src (id' (this s2)) True)) (\<lambda>schema.
     host_call (New_Settings schema) (Gio_new_Settings h schema)) s2) s1)"

text \<open>\<^verbatim>\<open>enable()\<close>, lines 97 to 104.\<close>

definition enable :: "('w, 'o, 'h) host \<Rightarrow> (unit, 'w, 'o, 'h) proc" where
  "enable h =
     then_do (build h) (\<lambda>_.
     then_do (compile h) (\<lambda>_.
     then_do (load h) (\<lambda>settings s3.
       let modes = js_bitor (NORMAL h) (MESSAGE_TRAY h)
       in for_of (bindings (this s3)) (\<lambda>b.
            host_call (AddKeybinding (name b) settings 0 modes (handler b))
              (wm_addKeybinding h (name b) settings 0 modes (handler b))) s3)))"

text \<open>\<^verbatim>\<open>disable()\<close>, lines 109 to 112.\<close>

definition disable :: "('w, 'o, 'h) host \<Rightarrow> (unit, 'w, 'o, 'h) proc" where
  "disable h s =
     for_of (bindings (this s)) (\<lambda>b.
       host_call (RemoveKeybinding (name b)) (wm_removeKeybinding h (name b))) s"

section \<open>Observations on the log and on rendered text\<close>

text \<open>The registration calls of a log, and the names they register.\<close>

fun is_register :: "('o, 'h) call \<Rightarrow> bool" where
  "is_register (AddKeybinding n st fl m cb) = True"
| "is_register c = False"

fun is_unregister :: "('o, 'h) call \<Rightarrow> bool" where
  "is_unregister (RemoveKeybinding n) = True"
| "is_unregister c = False"

fun registered_names :: "('o, 'h) call list \<Rightarrow> string list" where
  "registered_names [] = []"
| "registered_names (AddKeybinding n st fl m cb # cs) = n # registered_names cs"
| "registered_names (c # cs) = registered_names cs"

text \<open>The calls a method issued: the log after it, without the log before it.\<close>

definition issued :: "('w, 'o, 'h) state \<Rightarrow> ('w, 'o, 'h) state \<Rightarrow> ('o, 'h) call list" where
  "issued s s' = drop (length (calls s)) (calls s')"

text \<open>
  Text with no unescaped markup-significant character: none of \<^verbatim>\<open><\<close>, \<^verbatim>\<open>>\<close>, \<^verbatim>\<open>"\<close>,
  \<^verbatim>\<open>'\<close> occurs, and every \<^verbatim>\<open>&\<close> starts a reference: one of the five predefined
  entities or a hexadecimal character reference.
\<close>

definition is_hex_digit :: "char \<Rightarrow> bool" where
  "is_hex_digit c = (c \<in> set ''0123456789abcdef'')"

definition entity_names :: "string list" where
  "entity_names = [''amp;'', ''lt;'', ''gt;'', ''apos;'', ''quot;'']"

definition is_reference :: "string \<Rightarrow> bool" where
  "is_reference cs =
     (list_ex (\<lambda>e. take (length e) cs = e) entity_names \<or>
      (take 2 cs = ''#x'' \<and> takeWhile is_hex_digit (drop 2 cs) \<noteq> [] \<and>
       take 1 (dropWhile is_hex_digit (drop 2 cs)) = '';''))"

definition is_markup_char :: "char \<Rightarrow> bool" where
  "is_markup_char c = (c = CHR ''<'' \<or> c = CHR ''>'' \<or> c = CHR ''&'' \<or> c = CHR 0x22 \<or> c = CHR 0x27)"

fun no_unescaped_markup :: "string \<Rightarrow> bool" where
  "no_unescaped_markup [] = True"
| "no_unescaped_markup (c # cs) =
     ((if c = CHR ''&'' then is_reference cs else \<not> is_markup_char c) \<and> no_unescaped_markup cs)"

section \<open>A small host to run the methods on\<close>

text \<open>
  A concrete host for running the methods on concrete inputs. Its state lists the
  directories that exist, the schema ids in the compiled cache of each directory that has
  one, the ids of the system-wide schemas, and what the compiler process reports. A
  schema source carries its origin, its ids and its parent, and a schema the origin of
  the source it was found in. Writing a file fails in a directory that does not exist,
  opening a source fails without a compiled cache, and constructing settings fails
  without a schema (spec 4.1, build and load).
\<close>

datatype gobject =
    SchemaSource string "string list" "gobject option"
  | SettingsSchema string string
  | Settings gobject

record demo_world =
  existing_dirs :: "string list"
  compiled :: "(string \<times> string list) list"
  system :: "string list"
  compiler :: spawn_result

text \<open>
  Modelled from the spec: the lookup in a schema source is the host's and not in the
  repository. The spec (4.1, load) says the source is opened with the system-wide source
  chain as fallback and that with the recursive flag the lookup may go into the fallback,
  where a system-installed schema of the same id can be found. The source's own ids are
  searched first.
\<close>

fun source_lookup :: "gobject \<Rightarrow> string \<Rightarrow> bool \<Rightarrow> gobject option" where
  "source_lookup (SchemaSource origin ids parent) i recursive =
     (if i \<in> set ids then Some (SettingsSchema i origin)
      else if recursive then (case parent of None \<Rightarrow> None | Some p \<Rightarrow> source_lookup p i recursive)
      else None)"
| "source_lookup obj i recursive = None"

definition demo_host :: "(demo_world, gobject, nat) host" where
  "demo_host =
     \<lparr>GLib_get_tmp_dir = (\<lambda>w. ''/tmp''),
      Gio_replace_contents = (\<lambda>d child content w.
        if d \<in> set (existing_dirs w) then (Inr (), w)
        else (Inl (JsError ''No such file or directory''), w)),
      GLib_spawn_sync = (\<lambda>wd argv w. (Inr (compiler w), w)),
      Gio_get_default = (\<lambda>w. (Inr (Some (SchemaSource ''system'' (system w) None)), w)),
      Gio_new_from_directory = (\<lambda>d parent trusted w.
        case map_of (compiled w) d of
          None \<Rightarrow> (Inl (JsError ''No compiled schemas''), w)
        | Some ids \<Rightarrow> (Inr (SchemaSource d ids parent), w)),
      Gio_lookup = (\<lambda>src i recursive w. (Inr (source_lookup src i recursive), w)),
      Gio_new_Settings = (\<lambda>schema w.
        case schema of
          None \<Rightarrow> (Inl (JsError ''No schema''), w)
        | Some sc \<Rightarrow> (Inr (Settings sc), w)),
      wm_addKeybinding = (\<lambda>n st fl m cb w. (Inr 1, w)),
      wm_removeKeybinding = (\<lambda>n w. (Inr (), w)),
      NORMAL = 1,
      MESSAGE_TRAY = 8\<rparr>"

text \<open>
  The spec's example: id \<^verbatim>\<open>demo\<close>, directory \<^verbatim>\<open>/tmp/kbtest\<close>, bindings \<^verbatim>\<open>toggle\<close> and
  \<^verbatim>\<open>quit\<close> (handlers 1 and 2), added through \<^verbatim>\<open>add\<close>. In \<open>demo_world\<close> the directory
  exists and holds a compiled cache with the schema; the compiler reports a failure.
\<close>

definition failed_compiler :: spawn_result where
  "failed_compiler = \<lparr>ok = True, standard_output = [], standard_error = ''error'', exit_status = 256\<rparr>"

definition kbtest_world :: demo_world where
  "kbtest_world =
     \<lparr>existing_dirs = [''/tmp/kbtest''],
      compiled = [(''/tmp/kbtest'', [''org.gnome.shell.extensions.demo''])],
      system = [],
      compiler = failed_compiler\<rparr>"

definition demo_state :: "demo_world \<Rightarrow> (demo_world, gobject, nat) state" where
  "demo_state w =
     snd (add ''quit'' (Arr [''<Super>q'', ''<Super>Escape>'']) 2
       (snd (add ''toggle'' (Str ''<Super>j'') 1
         \<lparr>this = constructor demo_host ''demo'' (Some ''/tmp/kbtest'') w, world = w, calls = []\<rparr>)))"



section \<open>Lemmas about the methods\<close>

lemma then_do_cases:
  "then_do m f s = (r, s') \<Longrightarrow>
     (\<exists>e. m s = (Inl e, s') \<and> r = Inl e) \<or> (\<exists>x s1. m s = (Inr x, s1) \<and> f x s1 = (r, s'))"
  by (auto simp: then_do_def split: prod.splits sum.splits)

lemma host_call_eq:
  "host_call c f s = (r, s') \<Longrightarrow>
     this s' = this s \<and> calls s' = calls s @ [c] \<and> f (world s) = (r, world s')"
  by (auto simp: host_call_def split: prod.splits)

lemma build_eq:
  \<open>build h s = (r, s') \<Longrightarrow>
     this s' = this s \<and>
     calls s' = calls s @ [Replace_contents (dir (this s)) (id' (this s) @ ''.gschema.xml'')
       (''<schemalist><schema id="'' @ id' (this s) @ ''" path="/'' @ replace_dots (id' (this s))
          @ ''/">'' @ join (map render (bindings (this s))) [] @ ''</schema></schemalist>'')]\<close>
  by (auto simp: build_def Let_def dest!: host_call_eq)

lemma compile_eq:
  "compile h s = (r, s') \<Longrightarrow>
     this s' = this s \<and>
     calls s' = calls s @ [Spawn_sync (dir (this s)) [''glib-compile-schemas'', dir (this s)]]"
  by (auto simp: compile_def Let_def returns_def dest!: then_do_cases host_call_eq)

lemma load_eq:
  "load h s = (r, s') \<Longrightarrow>
     this s' = this s \<and> (\<exists>pre. calls s' = calls s @ pre \<and> list_all (\<lambda>c. \<not> is_register c) pre)"
  by (fastforce simp: load_def dest!: then_do_cases host_call_eq)

lemma for_of_host_calls:
  "for_of xs (\<lambda>b. host_call (c b) (f b)) s = (r, s') \<Longrightarrow>
     this s' = this s \<and>
     (\<exists>k\<le>length xs. calls s' = calls s @ map c (take k xs)) \<and>
     (r = Inr () \<longrightarrow> calls s' = calls s @ map c xs)"
proof (induction xs arbitrary: s)
  case Nil
  then show ?case by (simp add: returns_def)
next
  case (Cons x xs)
  from Cons.prems have
    "(\<exists>e. host_call (c x) (f x) s = (Inl e, s') \<and> r = Inl e) \<or>
     (\<exists>y s1. host_call (c x) (f x) s = (Inr y, s1) \<and>
        for_of xs (\<lambda>b. host_call (c b) (f b)) s1 = (r, s'))"
    by (auto dest: then_do_cases)
  then show ?case
  proof
    assume "\<exists>e. host_call (c x) (f x) s = (Inl e, s') \<and> r = Inl e"
    then obtain e where e: "host_call (c x) (f x) s = (Inl e, s')" "r = Inl e" by blast
    from host_call_eq [OF e(1)] have "this s' = this s" "calls s' = calls s @ map c (take 1 (x # xs))"
      by simp_all
    with e(2) show ?case by (intro conjI exI [of _ 1]) auto
  next
    assume "\<exists>y s1. host_call (c x) (f x) s = (Inr y, s1) \<and>
        for_of xs (\<lambda>b. host_call (c b) (f b)) s1 = (r, s')"
    then obtain y s1 where s1: "host_call (c x) (f x) s = (Inr y, s1)"
      and rest: "for_of xs (\<lambda>b. host_call (c b) (f b)) s1 = (r, s')" by blast
    from host_call_eq [OF s1] have a: "this s1 = this s" "calls s1 = calls s @ [c x]" by simp_all
    from Cons.IH [OF rest] obtain k where k: "k \<le> length xs"
      "calls s' = calls s1 @ map c (take k xs)" "this s' = this s1"
      "r = Inr () \<longrightarrow> calls s' = calls s1 @ map c xs" by blast
    from k a have "calls s' = calls s @ map c (take (Suc k) (x # xs))" by simp
    with k a show ?case by (intro conjI exI [of _ "Suc k"]) auto
  qed
qed

lemma enable_Inr:
  "enable h s = (Inr u, s') \<Longrightarrow>
     \<exists>s1 s2 s3 settings.
       build h s = (Inr (), s1) \<and> compile h s1 = (Inr (), s2) \<and> load h s2 = (Inr settings, s3) \<and>
       this s' = this s \<and>
       calls s' = calls s3 @ map (\<lambda>b. AddKeybinding (name b) settings 0
                    (js_bitor (NORMAL h) (MESSAGE_TRAY h)) (handler b)) (bindings (this s))"
proof -
  assume en: "enable h s = (Inr u, s')"
  let ?reg = "\<lambda>settings s3. for_of (bindings (this s3)) (\<lambda>b.
            host_call (AddKeybinding (name b) settings 0 (js_bitor (NORMAL h) (MESSAGE_TRAY h)) (handler b))
              (wm_addKeybinding h (name b) settings 0 (js_bitor (NORMAL h) (MESSAGE_TRAY h)) (handler b))) s3"
  from en obtain s1 s2 s3 settings where b: "build h s = (Inr (), s1)"
    and c: "compile h s1 = (Inr (), s2)"
    and l: "load h s2 = (Inr settings, s3)"
    and r3: "?reg settings s3 = (Inr u, s')"
    by (auto simp: enable_def Let_def dest!: then_do_cases)
  from build_eq [OF b] compile_eq [OF c] load_eq [OF l] have t: "this s3 = this s" by simp
  from for_of_host_calls [OF r3] t
  have "this s' = this s" "calls s' = calls s3 @ map (\<lambda>b. AddKeybinding (name b) settings 0
                    (js_bitor (NORMAL h) (MESSAGE_TRAY h)) (handler b)) (bindings (this s))"
    by simp_all
  with b c l show ?thesis by blast
qed

lemma pipeline_no_register:
  "build h s = (r1, s1) \<Longrightarrow> compile h s1 = (r2, s2) \<Longrightarrow> load h s2 = (r3, s3) \<Longrightarrow>
     (\<exists>p1. calls s1 = calls s @ p1 \<and> list_all (\<lambda>c. \<not> is_register c) p1) \<and>
     (\<exists>p2. calls s2 = calls s @ p2 \<and> list_all (\<lambda>c. \<not> is_register c) p2) \<and>
     (\<exists>p3. calls s3 = calls s @ p3 \<and> list_all (\<lambda>c. \<not> is_register c) p3)"
  by (drule build_eq, drule compile_eq, drule load_eq) auto


lemma registered_names_append:
  "registered_names (xs @ ys) = registered_names xs @ registered_names ys"
  by (induction xs rule: registered_names.induct) simp_all

lemma registered_names_none:
  "list_all (\<lambda>c. \<not> is_register c) p \<Longrightarrow> registered_names p = []"
  by (induction p rule: registered_names.induct) simp_all

lemma registered_names_map:
  "registered_names (map (\<lambda>b. AddKeybinding (name b) st fl m (handler b)) bs) = map name bs"
  by (induction bs) simp_all

section \<open>Claims about enable\<close>

text \<open>
  Claim C1. When \<^verbatim>\<open>enable()\<close> returns, it has run \<^verbatim>\<open>build()\<close>, then \<^verbatim>\<open>compile()\<close>, then
  \<^verbatim>\<open>load()\<close>, each returning normally, and after them has made one registration call per
  binding, in the order the bindings were added, passing the binding's name, the settings
  object that \<^verbatim>\<open>load()\<close> returned, the flags value 0, the bitwise or of \<^verbatim>\<open>NORMAL\<close> and
  \<^verbatim>\<open>MESSAGE_TRAY\<close>, and the binding's handler. No registration call is among the calls
  made up to the return of \<^verbatim>\<open>load()\<close>.
\<close>

theorem enable_runs_pipeline_then_registers:
  assumes "enable h s = (Inr u, s')"
  shows "\<exists>s1 s2 s3 settings p.
           build h s = (Inr (), s1) \<and> compile h s1 = (Inr (), s2) \<and>
           load h s2 = (Inr settings, s3) \<and>
           calls s3 = calls s @ p \<and> list_all (\<lambda>c. \<not> is_register c) p \<and>
           calls s' = calls s3 @ map (\<lambda>b. AddKeybinding (name b) settings 0
                        (js_bitor (NORMAL h) (MESSAGE_TRAY h)) (handler b)) (bindings (this s))"
proof -
  from enable_Inr [OF assms] obtain s1 s2 s3 settings where
    steps: "build h s = (Inr (), s1)" "compile h s1 = (Inr (), s2)" "load h s2 = (Inr settings, s3)"
    and regs: "calls s' = calls s3 @ map (\<lambda>b. AddKeybinding (name b) settings 0
                 (js_bitor (NORMAL h) (MESSAGE_TRAY h)) (handler b)) (bindings (this s))"
    by blast
  from pipeline_no_register [OF steps] obtain p where
    "calls s3 = calls s @ p" "list_all (\<lambda>c. \<not> is_register c) p" by blast
  with steps regs show ?thesis by blast
qed


text \<open>
  The spec's example on the small host: \<^verbatim>\<open>enable()\<close> returns and registers \<^verbatim>\<open>toggle\<close>, then
  \<^verbatim>\<open>quit\<close>.
\<close>

theorem enable_runs_pipeline_then_registers_witness:
  \<open>enable demo_host (demo_state kbtest_world)
     = (Inr (), snd (enable demo_host (demo_state kbtest_world))) \<and>
   (\<exists>s1 s2 s3 settings p.
      build demo_host (demo_state kbtest_world) = (Inr (), s1) \<and>
      compile demo_host s1 = (Inr (), s2) \<and>
      load demo_host s2 = (Inr settings, s3) \<and>
      calls s3 = calls (demo_state kbtest_world) @ p \<and> list_all (\<lambda>c. \<not> is_register c) p \<and>
      calls (snd (enable demo_host (demo_state kbtest_world)))
        = calls s3 @ map (\<lambda>b. AddKeybinding (name b) settings 0
            (js_bitor (NORMAL demo_host) (MESSAGE_TRAY demo_host)) (handler b))
            (bindings (this (demo_state kbtest_world)))) \<and>
   registered_names (calls (snd (enable demo_host (demo_state kbtest_world)))) = [''toggle'', ''quit'']\<close>
proof -
  have "fst (enable demo_host (demo_state kbtest_world)) = Inr ()"
    by code_simp
  then have h: "enable demo_host (demo_state kbtest_world)
     = (Inr (), snd (enable demo_host (demo_state kbtest_world)))"
    by (simp add: prod_eq_iff)
  have n: "registered_names (calls (snd (enable demo_host (demo_state kbtest_world)))) = [''toggle'', ''quit'']"
    by code_simp
  from h n enable_runs_pipeline_then_registers [OF h] show ?thesis by blast
qed


section \<open>Claims about compile\<close>




section \<open>Claims about failures in enable\<close>

lemma build_result:
  "build h s = (r, s') \<Longrightarrow>
     \<exists>child content. Gio_replace_contents h (dir (this s)) child content (world s) = (r, world s')"
  unfolding build_def Let_def by (blast dest: host_call_eq)

text \<open>
  Claim C5. If \<^verbatim>\<open>build()\<close> throws, or \<^verbatim>\<open>build()\<close> returns and \<^verbatim>\<open>compile()\<close> throws, or both
  return and \<^verbatim>\<open>load()\<close> throws, then \<^verbatim>\<open>enable()\<close> throws the same error in the same state,
  and no registration call is among the calls it made. In particular, when every write
  into the working directory fails (the directory does not exist), \<^verbatim>\<open>enable()\<close> fails
  with that error after the single write attempt of \<^verbatim>\<open>build()\<close>.
\<close>

theorem enable_failure_registers_nothing:
  "(build h s = (Inl e, s') \<or>
    (\<exists>s1. build h s = (Inr (), s1) \<and>
       (compile h s1 = (Inl e, s') \<or>
        (\<exists>s2. compile h s1 = (Inr (), s2) \<and> load h s2 = (Inl e, s'))))
    \<longrightarrow> enable h s = (Inl e, s') \<and>
        (\<exists>p. calls s' = calls s @ p \<and> list_all (\<lambda>c. \<not> is_register c) p)) \<and>
   ((\<forall>child content. fst (Gio_replace_contents h (dir (this s)) child content (world s)) = Inl e)
    \<longrightarrow> fst (enable h s) = Inl e \<and>
        (\<exists>content. calls (snd (enable h s))
           = calls s @ [Replace_contents (dir (this s)) (id' (this s) @ ''.gschema.xml'') content]))"
proof (intro conjI impI)
  assume a: "build h s = (Inl e, s') \<or>
    (\<exists>s1. build h s = (Inr (), s1) \<and>
       (compile h s1 = (Inl e, s') \<or>
        (\<exists>s2. compile h s1 = (Inr (), s2) \<and> load h s2 = (Inl e, s'))))"
  then show "enable h s = (Inl e, s')"
    by (auto simp: enable_def then_do_def)
  from a consider (b) "build h s = (Inl e, s')"
    | (c) s1 where "build h s = (Inr (), s1)" "compile h s1 = (Inl e, s')"
    | (l) s1 s2 where "build h s = (Inr (), s1)" "compile h s1 = (Inr (), s2)" "load h s2 = (Inl e, s')"
    by blast
  then show "\<exists>p. calls s' = calls s @ p \<and> list_all (\<lambda>c. \<not> is_register c) p"
  proof cases
    case b
    from build_eq [OF b] show ?thesis by simp
  next
    case c
    from build_eq [OF c(1)] compile_eq [OF c(2)] show ?thesis by simp
  next
    case l
    from pipeline_no_register [OF l] show ?thesis by blast
  qed
next
  assume a: "\<forall>child content. fst (Gio_replace_contents h (dir (this s)) child content (world s)) = Inl e"
  obtain r s1 where b: "build h s = (r, s1)" by (cases "build h s")
  from build_result [OF b] a have r: "r = Inl e"
    by (metis fst_conv)
  with b have en: "enable h s = (Inl e, s1)" by (simp add: enable_def then_do_def)
  then show "fst (enable h s) = Inl e" by simp
  from build_eq [OF b] en show "\<exists>content. calls (snd (enable h s))
           = calls s @ [Replace_contents (dir (this s)) (id' (this s) @ ''.gschema.xml'') content]"
    by simp
qed


text \<open>
  On the small host: without the directory the write fails; without a compiled cache
  \<^verbatim>\<open>load()\<close> fails. Nothing is registered either time.
\<close>

theorem enable_failure_registers_nothing_witness:
  "(\<forall>child content.
      fst (Gio_replace_contents demo_host
             (dir (this (demo_state (kbtest_world\<lparr>existing_dirs := []\<rparr>)))) child content
             (world (demo_state (kbtest_world\<lparr>existing_dirs := []\<rparr>))))
        = Inl (JsError ''No such file or directory'')) \<and>
   fst (enable demo_host (demo_state (kbtest_world\<lparr>existing_dirs := []\<rparr>)))
     = Inl (JsError ''No such file or directory'') \<and>
   (\<exists>content. calls (snd (enable demo_host (demo_state (kbtest_world\<lparr>existing_dirs := []\<rparr>))))
      = calls (demo_state (kbtest_world\<lparr>existing_dirs := []\<rparr>)) @
        [Replace_contents (dir (this (demo_state (kbtest_world\<lparr>existing_dirs := []\<rparr>))))
           (id' (this (demo_state (kbtest_world\<lparr>existing_dirs := []\<rparr>))) @ ''.gschema.xml'')
           content]) \<and>
   fst (load demo_host (demo_state (kbtest_world\<lparr>compiled := []\<rparr>)))
     = Inl (JsError ''No compiled schemas'') \<and>
   fst (enable demo_host (demo_state (kbtest_world\<lparr>compiled := []\<rparr>)))
     = Inl (JsError ''No compiled schemas'') \<and>
   registered_names (calls (snd (enable demo_host (demo_state (kbtest_world\<lparr>compiled := []\<rparr>))))) = []"
proof -
  let ?s = "demo_state (kbtest_world\<lparr>existing_dirs := []\<rparr>)"
  let ?e = "JsError ''No such file or directory''"
  let ?t = "demo_state (kbtest_world\<lparr>compiled := []\<rparr>)"
  let ?f = "JsError ''No compiled schemas''"
  have w: "\<forall>child content.
      fst (Gio_replace_contents demo_host (dir (this ?s)) child content (world ?s)) = Inl ?e"
    by (simp add: demo_host_def demo_state_def add_def constructor_def)
  have b: "fst (build demo_host ?t) = Inr ()" by code_simp
  have c: "fst (compile demo_host (snd (build demo_host ?t))) = Inr ()" by code_simp
  have l: "fst (load demo_host (snd (compile demo_host (snd (build demo_host ?t))))) = Inl ?f"
    by code_simp
  have l0: "fst (load demo_host ?t) = Inl ?f" by code_simp
  from b c l have steps:
    "build demo_host ?t = (Inl ?f, snd (load demo_host (snd (compile demo_host (snd (build demo_host ?t)))))) \<or>
     (\<exists>s1. build demo_host ?t = (Inr (), s1) \<and>
        (compile demo_host s1 = (Inl ?f, snd (load demo_host (snd (compile demo_host (snd (build demo_host ?t)))))) \<or>
         (\<exists>s2. compile demo_host s1 = (Inr (), s2) \<and>
            load demo_host s2 = (Inl ?f, snd (load demo_host (snd (compile demo_host (snd (build demo_host ?t)))))))))"
    by (metis prod.collapse)
  from enable_failure_registers_nothing [of demo_host ?s ?e ?s] w
  have first: "fst (enable demo_host ?s) = Inl ?e \<and>
        (\<exists>content. calls (snd (enable demo_host ?s))
           = calls ?s @ [Replace_contents (dir (this ?s)) (id' (this ?s) @ ''.gschema.xml'') content])"
    by blast
  from enable_failure_registers_nothing
         [of demo_host ?t ?f "snd (load demo_host (snd (compile demo_host (snd (build demo_host ?t)))))"]
       steps
  have en: "enable demo_host ?t = (Inl ?f, snd (load demo_host (snd (compile demo_host (snd (build demo_host ?t))))))"
    and "\<exists>p. calls (snd (load demo_host (snd (compile demo_host (snd (build demo_host ?t)))))) = calls ?t @ p \<and>
          list_all (\<lambda>c. \<not> is_register c) p"
    by blast+
  then obtain p where p: "calls (snd (enable demo_host ?t)) = calls ?t @ p"
    "list_all (\<lambda>c. \<not> is_register c) p" by auto
  have "calls ?t = []" by (simp add: demo_state_def add_def)
  with p have "registered_names (calls (snd (enable demo_host ?t))) = []"
    by (simp add: registered_names_none)
  with w first l0 en show ?thesis by simp
qed

section \<open>Claims about disable\<close>

text \<open>
  Claim C6. In every state, whatever calls were made before (so whether or not
  \<^verbatim>\<open>enable()\<close> ever ran), the calls \<^verbatim>\<open>disable()\<close> makes are unregister calls for the names
  of the bindings, in the order the bindings were added, and nothing else: no lookup
  precedes them. They form an initial part of the binding list, and all of it, one call
  per binding, whenever \<^verbatim>\<open>disable()\<close> returns (the loop ends early only when the host
  throws from an unregister call).
\<close>

theorem disable_unregisters_each_binding:
  "(\<exists>k\<le>length (bindings (this s)).
      calls (snd (disable h s))
        = calls s @ map (\<lambda>b. RemoveKeybinding (name b)) (take k (bindings (this s)))) \<and>
   (fst (disable h s) = Inr () \<longrightarrow>
      calls (snd (disable h s))
        = calls s @ map (\<lambda>b. RemoveKeybinding (name b)) (bindings (this s)))"
proof -
  have "for_of (bindings (this s))
          (\<lambda>b. host_call (RemoveKeybinding (name b)) (wm_removeKeybinding h (name b))) s
        = (fst (disable h s), snd (disable h s))"
    by (simp add: disable_def)
  from for_of_host_calls [OF this] show ?thesis by blast
qed

text \<open>In the example, \<^verbatim>\<open>disable()\<close> runs before any \<^verbatim>\<open>enable()\<close>.\<close>

theorem disable_unregisters_each_binding_witness:
  "calls (demo_state kbtest_world) = [] \<and>
   fst (disable demo_host (demo_state kbtest_world)) = Inr () \<and>
   calls (snd (disable demo_host (demo_state kbtest_world)))
     = calls (demo_state kbtest_world) @
       map (\<lambda>b. RemoveKeybinding (name b)) (bindings (this (demo_state kbtest_world))) \<and>
   calls (snd (disable demo_host (demo_state kbtest_world)))
     = [RemoveKeybinding ''toggle'', RemoveKeybinding ''quit'']"
proof -
  have r: "fst (disable demo_host (demo_state kbtest_world)) = Inr ()" by code_simp
  have c: "calls (demo_state kbtest_world) = []" by (simp add: demo_state_def add_def)
  have b: "map name (bindings (this (demo_state kbtest_world))) = [''toggle'', ''quit'']"
    by (simp add: demo_state_def add_def constructor_def)
  from disable_unregisters_each_binding [of "demo_state kbtest_world" demo_host] r
  have "calls (snd (disable demo_host (demo_state kbtest_world)))
     = calls (demo_state kbtest_world) @
       map (\<lambda>b. RemoveKeybinding (name b)) (bindings (this (demo_state kbtest_world)))"
    by blast
  moreover have "map (\<lambda>b. RemoveKeybinding (name b)) (bindings (this (demo_state kbtest_world)))
     = ([RemoveKeybinding ''toggle'', RemoveKeybinding ''quit''] :: (gobject, nat) call list)"
    by (simp add: demo_state_def add_def constructor_def)
  ultimately show ?thesis using r c by simp
qed


lemma disable_eq:
  "disable h s = (r, s') \<Longrightarrow>
     this s' = this s \<and>
     (\<exists>k\<le>length (bindings (this s)).
        calls s' = calls s @ map (\<lambda>b. RemoveKeybinding (name b)) (take k (bindings (this s))))"
  unfolding disable_def by (drule for_of_host_calls) blast

lemma list_all_unregister_map:
  "list_all is_unregister (map (\<lambda>b. RemoveKeybinding (name b)) bs)"
  by (induction bs) simp_all

lemma enable_registered_names:
  assumes "enable h s = (Inr u, s')"
  shows "this s' = this s \<and> registered_names (issued s s') = map name (bindings (this s))"
proof -
  from enable_Inr [OF assms] obtain s1 s2 s3 settings where
    steps: "build h s = (Inr (), s1)" "compile h s1 = (Inr (), s2)" "load h s2 = (Inr settings, s3)"
    and t: "this s' = this s"
    and regs: "calls s' = calls s3 @ map (\<lambda>b. AddKeybinding (name b) settings 0
                 (js_bitor (NORMAL h) (MESSAGE_TRAY h)) (handler b)) (bindings (this s))"
    by blast
  from pipeline_no_register [OF steps] obtain p where
    p: "calls s3 = calls s @ p" "list_all (\<lambda>c. \<not> is_register c) p" by blast
  from regs p have "issued s s' = p @ map (\<lambda>b. AddKeybinding (name b) settings 0
                 (js_bitor (NORMAL h) (MESSAGE_TRAY h)) (handler b)) (bindings (this s))"
    by (simp add: issued_def)
  with p(2) t show ?thesis
    by (simp add: registered_names_append registered_names_none registered_names_map)
qed

text \<open>
  Claim C7. \<^verbatim>\<open>disable()\<close> leaves \<^verbatim>\<open>this\<close> (the id, the directory and the binding list) as it
  was, and makes no host call other than unregister calls, so it removes no file. When
  \<^verbatim>\<open>enable()\<close>, \<^verbatim>\<open>disable()\<close> and \<^verbatim>\<open>enable()\<close> again all return, the second \<^verbatim>\<open>enable()\<close> runs
  \<^verbatim>\<open>build()\<close> (writing the same file with the same content as the first), \<^verbatim>\<open>compile()\<close>
  and \<^verbatim>\<open>load()\<close> again and registers the same names in the same order as the first.
\<close>

theorem disable_keeps_registry_and_reenable_repeats:
  "this (snd (disable h s)) = this s \<and>
   list_all is_unregister (issued s (snd (disable h s))) \<and>
   (enable h s = (Inr u1, s1) \<and> disable h s1 = (Inr u2, s2) \<and> enable h s2 = (Inr u3, s3) \<longrightarrow>
      this s3 = this s \<and>
      registered_names (issued s s1) = map name (bindings (this s)) \<and>
      registered_names (issued s2 s3) = registered_names (issued s s1) \<and>
      (\<exists>q1 t1 t2 t3 settings.
         build h s = (Inr (), q1) \<and> build h s2 = (Inr (), t1) \<and> issued s2 t1 = issued s q1 \<and>
         compile h t1 = (Inr (), t2) \<and> load h t2 = (Inr settings, t3) \<and>
         calls s3 = calls t3 @ map (\<lambda>b. AddKeybinding (name b) settings 0
                      (js_bitor (NORMAL h) (MESSAGE_TRAY h)) (handler b)) (bindings (this s))))"
proof (intro conjI impI)
  obtain r s' where d: "disable h s = (r, s')" by (cases "disable h s")
  from disable_eq [OF d] show "this (snd (disable h s)) = this s"
    by (simp add: d)
  from disable_eq [OF d] show "list_all is_unregister (issued s (snd (disable h s)))"
    by (auto simp: d issued_def list_all_unregister_map)
next
  assume a: "enable h s = (Inr u1, s1) \<and> disable h s1 = (Inr u2, s2) \<and> enable h s2 = (Inr u3, s3)"
  from a enable_registered_names [of h s u1 s1]
  have e1: "this s1 = this s" "registered_names (issued s s1) = map name (bindings (this s))"
    by simp_all
  from a disable_eq [of h s1 "Inr u2" s2] have d: "this s2 = this s1" by simp
  from a enable_registered_names [of h s2 u3 s3]
  have e2: "this s3 = this s2" "registered_names (issued s2 s3) = map name (bindings (this s2))"
    by simp_all
  from e1 d e2 show "this s3 = this s" by simp
  from e1 show "registered_names (issued s s1) = map name (bindings (this s))" by simp
  from e1 d e2 show "registered_names (issued s2 s3) = registered_names (issued s s1)" by simp
  from a enable_Inr [of h s2 u3 s3] obtain t1 t2 t3 settings where
    steps: "build h s2 = (Inr (), t1)" "compile h t1 = (Inr (), t2)" "load h t2 = (Inr settings, t3)"
    and regs: "calls s3 = calls t3 @ map (\<lambda>b. AddKeybinding (name b) settings 0
                 (js_bitor (NORMAL h) (MESSAGE_TRAY h)) (handler b)) (bindings (this s2))"
    by blast
  from a enable_Inr [of h s u1 s1] obtain q1 where q: "build h s = (Inr (), q1)" by blast
  from e1 d have t: "this s2 = this s" by simp
  from build_eq [OF q] build_eq [OF steps(1)] t have same: "issued s2 t1 = issued s q1"
    by (simp add: issued_def)
  from q steps same regs t
  show "\<exists>q1 t1 t2 t3 settings.
         build h s = (Inr (), q1) \<and> build h s2 = (Inr (), t1) \<and> issued s2 t1 = issued s q1 \<and>
         compile h t1 = (Inr (), t2) \<and> load h t2 = (Inr settings, t3) \<and>
         calls s3 = calls t3 @ map (\<lambda>b. AddKeybinding (name b) settings 0
                      (js_bitor (NORMAL h) (MESSAGE_TRAY h)) (handler b)) (bindings (this s))"
    by auto
qed



text \<open>The example, enabled, disabled and enabled again.\<close>

theorem disable_keeps_registry_and_reenable_repeats_witness:
  "enable demo_host (demo_state kbtest_world)
     = (Inr (), snd (enable demo_host (demo_state kbtest_world))) \<and>
   disable demo_host (snd (enable demo_host (demo_state kbtest_world)))
     = (Inr (), snd (disable demo_host (snd (enable demo_host (demo_state kbtest_world))))) \<and>
   enable demo_host (snd (disable demo_host (snd (enable demo_host (demo_state kbtest_world)))))
     = (Inr (), snd (enable demo_host (snd (disable demo_host (snd (enable demo_host (demo_state kbtest_world))))))) \<and>
   this (snd (enable demo_host (snd (disable demo_host (snd (enable demo_host (demo_state kbtest_world)))))))
     = this (demo_state kbtest_world) \<and>
   registered_names (issued (snd (disable demo_host (snd (enable demo_host (demo_state kbtest_world)))))
       (snd (enable demo_host (snd (disable demo_host (snd (enable demo_host (demo_state kbtest_world))))))))
     = registered_names (issued (demo_state kbtest_world) (snd (enable demo_host (demo_state kbtest_world)))) \<and>
   registered_names (issued (demo_state kbtest_world) (snd (enable demo_host (demo_state kbtest_world))))
     = [''toggle'', ''quit'']"
proof -
  let ?s = "demo_state kbtest_world"
  let ?s1 = "snd (enable demo_host ?s)"
  let ?s2 = "snd (disable demo_host ?s1)"
  let ?s3 = "snd (enable demo_host ?s2)"
  have "fst (enable demo_host ?s) = Inr ()" by code_simp
  then have e1: "enable demo_host ?s = (Inr (), ?s1)" by (simp add: prod_eq_iff)
  have "fst (disable demo_host ?s1) = Inr ()" by code_simp
  then have d: "disable demo_host ?s1 = (Inr (), ?s2)" by (simp add: prod_eq_iff)
  have "fst (enable demo_host ?s2) = Inr ()" by code_simp
  then have e2: "enable demo_host ?s2 = (Inr (), ?s3)" by (simp add: prod_eq_iff)
  have n: "map name (bindings (this ?s)) = [''toggle'', ''quit'']"
    by (simp add: demo_state_def add_def constructor_def)
  from disable_keeps_registry_and_reenable_repeats [of demo_host ?s "()" ?s1 "()" ?s2 "()" ?s3] e1 d e2
  have "this ?s3 = this ?s"
    "registered_names (issued ?s ?s1) = map name (bindings (this ?s))"
    "registered_names (issued ?s2 ?s3) = registered_names (issued ?s ?s1)"
    by blast+
  with e1 d e2 n show ?thesis by simp
qed



section \<open>Claims about load\<close>

text \<open>
  Claim C9. When \<^verbatim>\<open>load()\<close> returns, it has made four host calls: it asked for the
  system-wide default schema source, opened a schema source on the registry's working
  directory with that default source as its parent, looked the registry's id up in the
  new source with the recursive flag set to true, and constructed the settings object
  from what the lookup returned. With the flag set, the lookup may go on into the parent
  chain, so a system schema of the same id can be the one found.
\<close>

theorem load_looks_up_recursively_with_fallback:
  "load h s = (Inr settings, s') \<Longrightarrow>
     \<exists>fb src schema w1 w2 w3.
       Gio_get_default h (world s) = (Inr fb, w1) \<and>
       Gio_new_from_directory h (dir (this s)) fb False w1 = (Inr src, w2) \<and>
       Gio_lookup h src (id' (this s)) True w2 = (Inr schema, w3) \<and>
       Gio_new_Settings h schema w3 = (Inr settings, world s') \<and>
       calls s' = calls s @ [Get_default, New_from_directory (dir (this s)) fb False,
                             Lookup src (id' (this s)) True, New_Settings schema]"
  by (fastforce simp: load_def dest!: then_do_cases host_call_eq)

text \<open>
  On the small host, with a compiled cache in the directory that lacks the schema and a
  system schema of the same id: the settings object is bound to the system schema.
\<close>

theorem load_looks_up_recursively_with_fallback_witness:
  "load demo_host (demo_state (kbtest_world\<lparr>compiled := [(''/tmp/kbtest'', [])],
                                            system := [''org.gnome.shell.extensions.demo'']\<rparr>))
     = (Inr (Settings (SettingsSchema ''org.gnome.shell.extensions.demo'' ''system'')),
        snd (load demo_host (demo_state (kbtest_world\<lparr>compiled := [(''/tmp/kbtest'', [])],
                                            system := [''org.gnome.shell.extensions.demo'']\<rparr>)))) \<and>
   calls (snd (load demo_host (demo_state (kbtest_world\<lparr>compiled := [(''/tmp/kbtest'', [])],
                                            system := [''org.gnome.shell.extensions.demo'']\<rparr>))))
     = [Get_default,
        New_from_directory ''/tmp/kbtest''
          (Some (SchemaSource ''system'' [''org.gnome.shell.extensions.demo''] None)) False,
        Lookup (SchemaSource ''/tmp/kbtest'' []
                  (Some (SchemaSource ''system'' [''org.gnome.shell.extensions.demo''] None)))
          ''org.gnome.shell.extensions.demo'' True,
        New_Settings (Some (SettingsSchema ''org.gnome.shell.extensions.demo'' ''system''))] \<and>
   (\<exists>fb src schema w1 w2 w3.
       Gio_get_default demo_host (world (demo_state (kbtest_world\<lparr>compiled := [(''/tmp/kbtest'', [])],
                                            system := [''org.gnome.shell.extensions.demo'']\<rparr>))) = (Inr fb, w1) \<and>
       Gio_new_from_directory demo_host ''/tmp/kbtest'' fb False w1 = (Inr src, w2) \<and>
       Gio_lookup demo_host src ''org.gnome.shell.extensions.demo'' True w2 = (Inr schema, w3) \<and>
       Gio_new_Settings demo_host schema w3
         = (Inr (Settings (SettingsSchema ''org.gnome.shell.extensions.demo'' ''system'')),
            world (snd (load demo_host (demo_state (kbtest_world\<lparr>compiled := [(''/tmp/kbtest'', [])],
                                            system := [''org.gnome.shell.extensions.demo'']\<rparr>))))))"
proof -
  let ?s = "demo_state (kbtest_world\<lparr>compiled := [(''/tmp/kbtest'', [])],
                                      system := [''org.gnome.shell.extensions.demo'']\<rparr>)"
  have "fst (load demo_host ?s) = Inr (Settings (SettingsSchema ''org.gnome.shell.extensions.demo'' ''system''))"
    by code_simp
  then have l: "load demo_host ?s
     = (Inr (Settings (SettingsSchema ''org.gnome.shell.extensions.demo'' ''system'')), snd (load demo_host ?s))"
    by (simp add: prod_eq_iff)
  have c: "calls (snd (load demo_host ?s))
     = [Get_default,
        New_from_directory ''/tmp/kbtest''
          (Some (SchemaSource ''system'' [''org.gnome.shell.extensions.demo''] None)) False,
        Lookup (SchemaSource ''/tmp/kbtest'' []
                  (Some (SchemaSource ''system'' [''org.gnome.shell.extensions.demo''] None)))
          ''org.gnome.shell.extensions.demo'' True,
        New_Settings (Some (SettingsSchema ''org.gnome.shell.extensions.demo'' ''system''))]"
    by code_simp
  have t: "dir (this ?s) = ''/tmp/kbtest''" "id' (this ?s) = ''org.gnome.shell.extensions.demo''"
    by (simp_all add: demo_state_def add_def constructor_def)
  from load_looks_up_recursively_with_fallback [OF l] l c show ?thesis unfolding t by blast
qed

section \<open>Claims about add and render\<close>

text \<open>
  Claim C8. \<^verbatim>\<open>add(name, s, handler)\<close> with a string \<open>s\<close> returns the same result and state
  as \<^verbatim>\<open>add(name, [s], handler)\<close>: the binding appended has the one-element sequence list
  \<open>[s]\<close>, and it renders to the same text in both cases.
\<close>

theorem add_string_is_singleton:
  "add n (Str x) cb s = add n (Arr [x]) cb s \<and>
   bindings (this (snd (add n (Str x) cb s)))
     = bindings (this s) @ [\<lparr>name = n, sequences = [x], handler = cb\<rparr>] \<and>
   render (last (bindings (this (snd (add n (Str x) cb s)))))
     = render (last (bindings (this (snd (add n (Arr [x]) cb s)))))"
  by (simp add: add_def)

text \<open>
  Claim C10. \<^verbatim>\<open>render\<close> puts the binding's name into the \<^verbatim>\<open>name\<close> attribute as it is: the
  output is a fixed opening, the name, and a rest that does not depend on the name. So a
  name with \<^verbatim>\<open>"\<close> and \<^verbatim>\<open><\<close> in it shows both unescaped in the output, while the
  sequence beside it is escaped.
\<close>

theorem render_name_verbatim:
  \<open>(\<exists>rest. \<forall>n. render (b\<lparr>name := n\<rparr>) = ''<key type="as" name="'' @ n @ rest) \<and>
   render \<lparr>name = ''a"<b'', sequences = [''<Super>j''], handler = h\<rparr>
     = ''<key type="as" name="a"<b"><summary/><default>["&lt;Super&gt;j"]</default></key>''\<close>
proof
  show \<open>\<exists>rest. \<forall>n. render (b\<lparr>name := n\<rparr>) = ''<key type="as" name="'' @ n @ rest\<close>
    by (rule exI [of _ "''\"><summary/><default>'' @ JSON_stringify (map (\<lambda>s. markup_escape_text s (length s)) (sequences b)) @ ''</default></key>''"])
       (simp add: render_def)
  show \<open>render \<lparr>name = ''a"<b'', sequences = [''<Super>j''], handler = h\<rparr>
     = ''<key type="as" name="a"<b"><summary/><default>["&lt;Super&gt;j"]</default></key>''\<close>
    by (simp add: render_def JSON_stringify_def QuoteJSONString_def markup_escape_text_def
          escape_char_def quote_json_char_def is_control_def)
qed


section \<open>Claims about escaping in render\<close>

text \<open>
  Hexadecimal digits and the characters of the entity names are not markup-significant,
  and JSON quoting leaves them as they are.
\<close>

lemma hex_digit_is_hex: "is_hex_digit (hex_digit d)"
  unfolding hex_digit_def is_hex_digit_def by (rule nth_mem) simp

lemma hex_all: "list_all is_hex_digit (hex n) \<and> hex n \<noteq> []"
proof (induction n rule: hex.induct)
  case (1 n)
  show ?case
  proof (cases "n < 16")
    case True
    then have "hex n = [hex_digit n]" by (subst hex.simps) simp
    then show ?thesis by (simp add: hex_digit_is_hex)
  next
    case False
    then have "hex n = hex (n div 16) @ [hex_digit n]" by (subst hex.simps) simp
    with 1 False show ?thesis by (simp add: hex_digit_is_hex)
  qed
qed


lemma hex_digit_not_markup: "is_hex_digit c \<Longrightarrow> \<not> is_markup_char c"
  unfolding is_hex_digit_def by (auto simp: is_markup_char_def)

lemma hex_digit_quote: "is_hex_digit c \<Longrightarrow> quote_json_char c = [c]"
  unfolding is_hex_digit_def by (auto simp: quote_json_char_def)

lemma quote_hex_digits:
  "list_all is_hex_digit ds \<Longrightarrow> concat (map quote_json_char ds) = ds"
  by (induction ds) (simp_all add: hex_digit_quote)

lemma safe_skip_plain:
  "list_all (\<lambda>c. \<not> is_markup_char c) ds \<Longrightarrow>
     no_unescaped_markup (ds @ rest) = no_unescaped_markup rest"
proof (induction ds)
  case Nil
  then show ?case by simp
next
  case (Cons d ds)
  then have "\<not> is_markup_char d" "d \<noteq> CHR ''&''" by (auto simp: is_markup_char_def)
  with Cons show ?case by simp
qed

lemma safe_skip_hex:
  "list_all is_hex_digit ds \<Longrightarrow> no_unescaped_markup (ds @ rest) = no_unescaped_markup rest"
  by (rule safe_skip_plain) (simp add: list_all_iff hex_digit_not_markup)

lemma char_reference:
  assumes "list_all is_hex_digit ds" "ds \<noteq> []"
  shows "is_reference (''#x'' @ ds @ '';'' @ rest)"
proof -
  have "\<not> is_hex_digit CHR '';''" by (simp add: is_hex_digit_def)
  with assms(1) have "takeWhile is_hex_digit (ds @ CHR '';'' # rest) = ds"
    "dropWhile is_hex_digit (ds @ CHR '';'' # rest) = CHR '';'' # rest"
    by (simp_all add: list_all_iff takeWhile_append2 dropWhile_append2)
  with assms(2) show ?thesis by (simp add: is_reference_def)
qed

lemma char_reference_safe:
  assumes "list_all is_hex_digit ds" "ds \<noteq> []" "no_unescaped_markup rest"
  shows "no_unescaped_markup (''&#x'' @ ds @ '';'' @ rest)"
proof -
  have "no_unescaped_markup (ds @ '';'' @ rest)"
    using assms by (simp add: safe_skip_hex is_markup_char_def)
  with char_reference [OF assms(1,2), of rest] show ?thesis
    by (simp add: is_markup_char_def)
qed


lemma entity_safe:
  assumes "e \<in> set entity_names" "no_unescaped_markup rest"
  shows "no_unescaped_markup (CHR ''&'' # e @ rest)"
proof -
  from assms(1) have ref: "is_reference (e @ rest)"
    by (auto simp: entity_names_def is_reference_def)
  from assms(1) have "list_all (\<lambda>c. \<not> is_markup_char c) e"
    by (auto simp: entity_names_def is_markup_char_def)
  with assms(2) have "no_unescaped_markup (e @ rest)" by (simp add: safe_skip_plain)
  with ref show ?thesis by simp
qed

lemma escape_markup_char:
  assumes "is_markup_char c"
  shows "\<exists>e\<in>set entity_names. escape_char c = CHR ''&'' # e \<and>
           concat (map quote_json_char (CHR ''&'' # e)) = CHR ''&'' # e"
proof -
  from assms consider "c = CHR ''<''" | "c = CHR ''>''" | "c = CHR ''&''" | "c = CHR 0x22" | "c = CHR 0x27"
    by (auto simp: is_markup_char_def)
  then show ?thesis
  proof cases
    case 1 then show ?thesis by (simp add: escape_char_def entity_names_def quote_json_char_def)
  next
    case 2 then show ?thesis by (simp add: escape_char_def entity_names_def quote_json_char_def)
  next
    case 3 then show ?thesis by (simp add: escape_char_def entity_names_def quote_json_char_def)
  next
    case 4 then show ?thesis by (simp add: escape_char_def entity_names_def quote_json_char_def)
  next
    case 5 then show ?thesis by (simp add: escape_char_def entity_names_def quote_json_char_def)
  qed
qed

lemma escape_plain_char:
  assumes "\<not> is_markup_char c"
  shows "escape_char c = (if is_control c then ''&#x'' @ hex (of_char c) @ '';'' else [c])"
  using assms by (simp add: escape_char_def is_markup_char_def)


lemma hex4_plain: "list_all (\<lambda>c. \<not> is_markup_char c) (hex4 n)"
  by (simp add: hex4_def hex_digit_not_markup hex_digit_is_hex)

lemma quote_plain_char:
  assumes "\<not> is_markup_char c"
  shows "list_all (\<lambda>c. \<not> is_markup_char c) (quote_json_char c)"
proof -
  have letters: "\<not> is_markup_char (CHR 0x5C)" "\<not> is_markup_char CHR ''b''"
    "\<not> is_markup_char CHR ''t''" "\<not> is_markup_char CHR ''n''" "\<not> is_markup_char CHR ''f''"
    "\<not> is_markup_char CHR ''r''" "\<not> is_markup_char CHR ''u''"
    by (simp_all add: is_markup_char_def)
  from assms have "c \<noteq> CHR 0x22" by (auto simp: is_markup_char_def)
  with assms letters hex4_plain [of "of_char c"] show ?thesis
    by (simp add: quote_json_char_def)
qed

lemma escape_char_safe:
  assumes "no_unescaped_markup rest"
  shows "no_unescaped_markup (escape_char c @ rest)"
proof (cases "is_markup_char c")
  case True
  from escape_markup_char [OF True] obtain e where
    "e \<in> set entity_names" "escape_char c = CHR ''&'' # e" by blast
  with entity_safe [of e rest] assms show ?thesis by simp
next
  case False
  show ?thesis
  proof (cases "is_control c")
    case True
    with False have "escape_char c = ''&#x'' @ hex (of_char c) @ '';''"
      by (simp add: escape_plain_char)
    with char_reference_safe [of "hex (of_char c)" rest] hex_all [of "of_char c"] assms
    show ?thesis by simp
  next
    case ctl: False
    with False have "escape_char c = [c]" by (simp add: escape_plain_char)
    with False assms safe_skip_plain [of "[c]" rest] show ?thesis by simp
  qed
qed

lemma serialized_char_safe:
  assumes "no_unescaped_markup rest"
  shows "no_unescaped_markup (concat (map quote_json_char (escape_char c)) @ rest)"
proof (cases "is_markup_char c")
  case True
  from escape_markup_char [OF True] obtain e where
    "e \<in> set entity_names" "escape_char c = CHR ''&'' # e"
    "concat (map quote_json_char (CHR ''&'' # e)) = CHR ''&'' # e" by blast
  with entity_safe [of e rest] assms show ?thesis by simp
next
  case False
  show ?thesis
  proof (cases "is_control c")
    case True
    with False have e: "escape_char c = ''&#x'' @ hex (of_char c) @ '';''"
      by (simp add: escape_plain_char)
    have "concat (map quote_json_char (''&#x'' @ hex (of_char c) @ '';'')) = ''&#x'' @ hex (of_char c) @ '';''"
      using hex_all [of "of_char c"] by (simp add: quote_hex_digits quote_json_char_def)
    with e char_reference_safe [of "hex (of_char c)" rest] hex_all [of "of_char c"] assms
    show ?thesis by simp
  next
    case ctl: False
    with False have "escape_char c = [c]" by (simp add: escape_plain_char)
    with quote_plain_char [OF False] assms safe_skip_plain [of "quote_json_char c" rest]
    show ?thesis by simp
  qed
qed

lemma escaped_safe: "no_unescaped_markup (markup_escape_text s n)"
proof -
  have "no_unescaped_markup (concat (map escape_char xs))" for xs
    by (induction xs) (simp_all add: escape_char_safe)
  then show ?thesis by (simp add: markup_escape_text_def)
qed

lemma serialized_safe:
  "no_unescaped_markup (concat (map quote_json_char (markup_escape_text s n)))"
proof -
  have "no_unescaped_markup (concat (map quote_json_char (concat (map escape_char xs))))" for xs
    by (induction xs) (simp_all add: serialized_char_safe)
  then show ?thesis by (simp add: markup_escape_text_def)
qed


text \<open>
  Claim C4. \<^verbatim>\<open>render\<close> returns the key element whose \<^verbatim>\<open>default\<close> holds a JSON array with, for
  each sequence in order, the markup-escaped sequence quoted as a JSON string. Neither the
  escaped sequence nor its quoted form contains \<^verbatim>\<open><\<close>, \<^verbatim>\<open>>\<close>, \<^verbatim>\<open>"\<close> or \<^verbatim>\<open>'\<close>, and every
  \<^verbatim>\<open>&\<close> in them starts an entity or a character reference: no markup-significant
  character of a sequence reaches the fragment unescaped.
\<close>

theorem render_escapes_sequences:
  \<open>render b
     = ''<key type="as" name="'' @ name b @ ''"><summary/><default>['' @
       join (map (\<lambda>s. [CHR 0x22] @ concat (map quote_json_char (markup_escape_text s (length s)))
                       @ [CHR 0x22]) (sequences b)) '','' @
       '']</default></key>'' \<and>
   (\<forall>s\<in>set (sequences b).
      no_unescaped_markup (markup_escape_text s (length s)) \<and>
      no_unescaped_markup (concat (map quote_json_char (markup_escape_text s (length s)))))\<close>
  by (simp add: render_def JSON_stringify_def QuoteJSONString_def comp_def escaped_safe
        serialized_safe)

text \<open>A sequence with all five characters, which is not free of markup before escaping.\<close>

theorem render_escapes_sequences_witness:
  \<open>render \<lparr>name = ''quit'', sequences = [''<Super>q'', ''<a&b>"c'd''], handler = (2::nat)\<rparr>
     = ''<key type="as" name="quit"><summary/><default>["&lt;Super&gt;q","&lt;a&amp;b&gt;&quot;c&apos;d"]</default></key>'' \<and>
   no_unescaped_markup (concat (map quote_json_char (markup_escape_text ''<a&b>"c'd'' (length ''<a&b>"c'd'')))) \<and>
   concat (map quote_json_char (markup_escape_text ''<a&b>"c'd'' (length ''<a&b>"c'd'')))
     = ''&lt;a&amp;b&gt;&quot;c&apos;d'' \<and>
   \<not> no_unescaped_markup ''<a&b>"c'd''\<close>
proof -
  let ?b = \<open>\<lparr>name = ''quit'', sequences = [''<Super>q'', ''<a&b>"c'd''], handler = (2::nat)\<rparr>\<close>
  have m: \<open>''<a&b>"c'd'' \<in> set (sequences ?b)\<close> by simp
  have r: \<open>render ?b
     = ''<key type="as" name="quit"><summary/><default>["&lt;Super&gt;q","&lt;a&amp;b&gt;&quot;c&apos;d"]</default></key>''\<close>
    by code_simp
  have e: \<open>concat (map quote_json_char (markup_escape_text ''<a&b>"c'd'' (length ''<a&b>"c'd'')))
     = ''&lt;a&amp;b&gt;&quot;c&apos;d''\<close>
    by code_simp
  have n: \<open>\<not> no_unescaped_markup ''<a&b>"c'd''\<close>
    by (simp add: is_markup_char_def)
  from render_escapes_sequences [of ?b] m
  have \<open>no_unescaped_markup (concat (map quote_json_char (markup_escape_text ''<a&b>"c'd'' (length ''<a&b>"c'd''))))\<close>
    by blast
  with r e n show ?thesis by blast
qed


section \<open>Claims about build\<close>

lemma join_empty: "join xs [] = concat xs"
  by (induction xs "[] :: string" rule: join.induct) simp_all

lemma replace_dots_Cons:
  "replace_dots (c # cs) = (if c = CHR ''.'' then CHR ''/'' else c) # replace_dots cs"
  by (simp add: replace_dots_def)

lemma replace_dots_id: "CHR ''.'' \<notin> set i \<Longrightarrow> replace_dots i = i"
  unfolding replace_dots_def by (rule map_idI) auto

text \<open>
  Claim C3, amended. For a registry constructed with caller id \<open>i\<close> and holding the
  bindings \<open>bs\<close>, \<^verbatim>\<open>build()\<close> makes one write, to the file
  \<^verbatim>\<open>org.gnome.shell.extensions.<i>.gschema.xml\<close> in the working directory, of a document
  fixed by \<open>i\<close> and \<open>bs\<close> alone: the \<^verbatim>\<open>schemalist\<close> root, the \<^verbatim>\<open>schema\<close> element with id
  \<^verbatim>\<open>org.gnome.shell.extensions.<i>\<close> and path \<^verbatim>\<open>/org/gnome/shell/extensions/<j>/\<close>, where
  \<open>j\<close> is \<open>i\<close> with every dot replaced by a slash (so \<open>j\<close> is \<open>i\<close> when \<open>i\<close> has no dot),
  and in it one \<^verbatim>\<open>key\<close> element of type \<^verbatim>\<open>as\<close> per binding, in add order, carrying the
  binding's name. A second \<^verbatim>\<open>build()\<close> right after the first makes the same write.
\<close>

theorem build_writes_schema_document:
  assumes "this s = (constructor h i d w)\<lparr>bindings := bs\<rparr>"
  shows \<open>calls (snd (build h s))
      = calls s @
        [Replace_contents (dir (this s)) (''org.gnome.shell.extensions.'' @ i @ ''.gschema.xml'')
          (''<schemalist><schema id="org.gnome.shell.extensions.'' @ i @
           ''" path="/org/gnome/shell/extensions/'' @ replace_dots i @ ''/">'' @
           concat (map render bs) @ ''</schema></schemalist>'')] \<and>
    issued (snd (build h s)) (snd (build h (snd (build h s)))) = issued s (snd (build h s)) \<and>
    (CHR ''.'' \<notin> set i \<longrightarrow> replace_dots i = i) \<and>
    (\<forall>b\<in>set bs. \<exists>body. render b = ''<key type="as" name="'' @ name b @ ''">'' @ body @ ''</key>'')\<close>
proof -
  obtain r s1 where b1: "build h s = (r, s1)" by (cases "build h s")
  obtain r' s2 where b2: "build h s1 = (r', s2)" by (cases "build h s1")
  from assms have t: "id' (this s) = ''org.gnome.shell.extensions.'' @ i" "bindings (this s) = bs"
    by (simp_all add: constructor_def)
  from build_eq [OF b1] t b1
  have written: \<open>calls (snd (build h s))
      = calls s @
        [Replace_contents (dir (this s)) (''org.gnome.shell.extensions.'' @ i @ ''.gschema.xml'')
          (''<schemalist><schema id="org.gnome.shell.extensions.'' @ i @
           ''" path="/org/gnome/shell/extensions/'' @ replace_dots i @ ''/">'' @
           concat (map render bs) @ ''</schema></schemalist>'')]\<close>
    by (simp add: join_empty replace_dots_Cons)
  from build_eq [OF b1] build_eq [OF b2] b1 b2
  have again: "issued (snd (build h s)) (snd (build h (snd (build h s)))) = issued s (snd (build h s))"
    by (simp add: issued_def)
  have keys: \<open>\<exists>body. render b = ''<key type="as" name="'' @ name b @ ''">'' @ body @ ''</key>''\<close>
    for b :: "'a binding"
    by (rule exI [of _ "''<summary/><default>'' @
          JSON_stringify (map (\<lambda>s. markup_escape_text s (length s)) (sequences b)) @ ''</default>''"])
       (simp add: render_def)
  from written again keys replace_dots_id [of i] show ?thesis by blast
qed

text \<open>
  For the caller id \<^verbatim>\<open>a.b\<close> the path written is \<^verbatim>\<open>/org/gnome/shell/extensions/a/b/\<close>, not
  \<^verbatim>\<open>/org/gnome/shell/extensions/a.b/\<close>: the dots of the caller's id are replaced too.
\<close>

theorem build_path_of_dotted_id_counterexample:
  \<open>calls (snd (build demo_host
       \<lparr>this = constructor demo_host ''a.b'' (Some ''/tmp/kbtest'') kbtest_world,
        world = kbtest_world, calls = []\<rparr>))
     = [Replace_contents ''/tmp/kbtest'' ''org.gnome.shell.extensions.a.b.gschema.xml''
         ''<schemalist><schema id="org.gnome.shell.extensions.a.b" path="/org/gnome/shell/extensions/a/b/"></schema></schemalist>''] \<and>
   ''<schemalist><schema id="org.gnome.shell.extensions.a.b" path="/org/gnome/shell/extensions/a/b/"></schema></schemalist>''
     \<noteq> ''<schemalist><schema id="org.gnome.shell.extensions.a.b" path="/org/gnome/shell/extensions/a.b/"></schema></schemalist>''\<close>
  by (simp add: build_def host_call_def demo_host_def constructor_def kbtest_world_def
        replace_dots_def)

text \<open>The spec's example: the document for id \<^verbatim>\<open>demo\<close> with \<^verbatim>\<open>toggle\<close> and \<^verbatim>\<open>quit\<close>.\<close>

theorem build_writes_schema_document_witness:
  \<open>this (demo_state kbtest_world)
     = (constructor demo_host ''demo'' (Some ''/tmp/kbtest'') kbtest_world)
         \<lparr>bindings := [\<lparr>name = ''toggle'', sequences = [''<Super>j''], handler = 1\<rparr>,
                       \<lparr>name = ''quit'', sequences = [''<Super>q'', ''<Super>Escape>''], handler = 2\<rparr>]\<rparr> \<and>
   CHR ''.'' \<notin> set ''demo'' \<and>
   calls (snd (build demo_host (demo_state kbtest_world)))
     = [Replace_contents ''/tmp/kbtest'' ''org.gnome.shell.extensions.demo.gschema.xml''
         ''<schemalist><schema id="org.gnome.shell.extensions.demo" path="/org/gnome/shell/extensions/demo/"><key type="as" name="toggle"><summary/><default>["&lt;Super&gt;j"]</default></key><key type="as" name="quit"><summary/><default>["&lt;Super&gt;q","&lt;Super&gt;Escape&gt;"]</default></key></schema></schemalist>'']\<close>
proof -
  let ?bs = "[\<lparr>name = ''toggle'', sequences = [''<Super>j''], handler = 1::nat\<rparr>,
              \<lparr>name = ''quit'', sequences = [''<Super>q'', ''<Super>Escape>''], handler = 2\<rparr>]"
  have t: "this (demo_state kbtest_world)
     = (constructor demo_host ''demo'' (Some ''/tmp/kbtest'') kbtest_world)\<lparr>bindings := ?bs\<rparr>"
    by (simp add: demo_state_def add_def constructor_def)
  have d: "CHR ''.'' \<notin> set ''demo''" by simp
  have r: \<open>concat (map render ?bs)
     = ''<key type="as" name="toggle"><summary/><default>["&lt;Super&gt;j"]</default></key><key type="as" name="quit"><summary/><default>["&lt;Super&gt;q","&lt;Super&gt;Escape&gt;"]</default></key>''\<close>
    by code_simp
  have c: "calls (demo_state kbtest_world) = []" "dir (this (demo_state kbtest_world)) = ''/tmp/kbtest''"
    by (simp_all add: demo_state_def add_def constructor_def)
  from build_writes_schema_document [OF t] d
  have \<open>calls (snd (build demo_host (demo_state kbtest_world)))
      = calls (demo_state kbtest_world) @
        [Replace_contents (dir (this (demo_state kbtest_world))) (''org.gnome.shell.extensions.'' @ ''demo'' @ ''.gschema.xml'')
          (''<schemalist><schema id="org.gnome.shell.extensions.'' @ ''demo'' @
           ''" path="/org/gnome/shell/extensions/'' @ ''demo'' @ ''/">'' @
           concat (map render ?bs) @ ''</schema></schemalist>'')]\<close>
    by simp
  with t d show ?thesis unfolding r c by simp
qed

end
